theory Spec2Isabelle
  imports Complex_Main
begin

section \<open>Data model of the NDI processing pipeline\<close>

text \<open>
  The pipeline of \<^verbatim>\<open>NDI_data_process.py\<close> works on pandas data frames read from CSV
  files. A data frame is modelled by its number of columns and its list of rows; the
  number of columns is kept apart because a frame with no row still has its header.
  Cells are float64 in the program and are idealised as real numbers here, so NaN and
  rounding are outside the model. Columns are addressed by position: the cleaning stage
  names them \<^verbatim>\<open>x1,y1,z1,x2,y2,z2,...\<close> in this order, hence \<^verbatim>\<open>row[f'x{i}']\<close> is the cell
  at position \<open>3 * (i - 1)\<close>.
\<close>

type_synonym point = "real \<times> real \<times> real"

type_synonym row = "real list"

record dataframe =
  ncols :: nat
  rows :: "row list"

definition wf_dataframe :: "dataframe \<Rightarrow> bool" where
  "wf_dataframe df = list_all (\<lambda>r. length r = ncols df) (rows df)"

datatype marker_id = marker1 | marker2

text \<open>The dictionary \<^verbatim>\<open>prev_pos\<close>: one entry per marker, \<open>None\<close> standing for the initial
  tuple \<^verbatim>\<open>(None, None, None)\<close>. Python iterates it in insertion order.\<close>

record prev_pos =
  prev_marker1 :: "point option"
  prev_marker2 :: "point option"

definition items :: "prev_pos \<Rightarrow> (marker_id \<times> point option) list" where
  "items pp = [(marker1, prev_marker1 pp), (marker2, prev_marker2 pp)]"

record tracker_state =
  prev :: prev_pos
  labelled :: "row list"

text \<open>The ways \<^verbatim>\<open>label_markers\<close> ends without writing a file: the two warnings followed by
  \<^verbatim>\<open>return\<close>, and the \<^verbatim>\<open>RuntimeError\<close> that carries the row index.\<close>

datatype failure =
  NotEnoughColumns nat
  | InitialMarkerCount nat
  | MarkerLostTrack nat

section \<open>Marker labelling\<close>

text \<open>\<^verbatim>\<open>np.linalg.norm(marker_array - prev_marker_array)\<close>\<close>

fun norm_diff :: "point \<Rightarrow> point \<Rightarrow> real" where
  "norm_diff (x, y, z) (x', y', z') = sqrt ((x - x')\<^sup>2 + (y - y')\<^sup>2 + (z - z')\<^sup>2)"

text \<open>The triple \<^verbatim>\<open>(row[f'x{i}'], row[f'y{i}'], row[f'z{i}'])\<close>, for \<open>i\<close> counted from 1.\<close>

definition marker_at :: "row \<Rightarrow> nat \<Rightarrow> point" where
  "marker_at r i = (r ! (3 * (i - 1)), r ! (3 * (i - 1) + 1), r ! (3 * (i - 1) + 2))"

definition is_sentinel :: "point \<Rightarrow> bool" where
  "is_sentinel p = (case p of (x, y, z) \<Rightarrow> x = 0 \<and> y = 0 \<and> z = 0)"

text \<open>The list \<^verbatim>\<open>markers\<close> of a row: its complete triples that are not all zero.\<close>

definition markers_of :: "row \<Rightarrow> point list" where
  "markers_of r =
     filter (\<lambda>p. \<not> is_sentinel p) (map (marker_at r) [1..<length r div 3 + 1])"

text \<open>The inner loop over \<^verbatim>\<open>prev_pos.items()\<close> for one marker of the frame.\<close>

fun match_marker ::
  "real \<Rightarrow> point \<Rightarrow> (marker_id \<times> point option) list \<Rightarrow> (point \<times> marker_id \<times> real) list"
where
  "match_marker max_position_change marker [] = []"
| "match_marker max_position_change marker ((marker_id, None) # its) =
     match_marker max_position_change marker its"
| "match_marker max_position_change marker ((marker_id, Some prev_marker) # its) =
     (let dist = norm_diff marker prev_marker in
      if dist < max_position_change
      then (marker, marker_id, dist) # match_marker max_position_change marker its
      else match_marker max_position_change marker its)"

text \<open>The outer loop over \<^verbatim>\<open>markers\<close>, building the list \<^verbatim>\<open>distances\<close>.\<close>

fun distances ::
  "real \<Rightarrow> point list \<Rightarrow> (marker_id \<times> point option) list \<Rightarrow> (point \<times> marker_id \<times> real) list"
where
  "distances max_position_change [] its = []"
| "distances max_position_change (marker # markers) its =
     match_marker max_position_change marker its @ distances max_position_change markers its"

text \<open>Writing and reading the cells \<^verbatim>\<open>x1,y1,z1\<close> and \<^verbatim>\<open>x2,y2,z2\<close> of a row.\<close>

fun set_position :: "marker_id \<Rightarrow> point \<Rightarrow> row \<Rightarrow> row" where
  "set_position marker1 (x, y, z) r = r[0 := x, 1 := y, 2 := z]"
| "set_position marker2 (x, y, z) r = r[3 := x, 4 := y, 5 := z]"

fun position :: "marker_id \<Rightarrow> row \<Rightarrow> point" where
  "position marker1 r = (r ! 0, r ! 1, r ! 2)"
| "position marker2 r = (r ! 3, r ! 4, r ! 5)"

fun other :: "marker_id \<Rightarrow> marker_id" where
  "other marker1 = marker2"
| "other marker2 = marker1"

text \<open>The body of the loop \<^verbatim>\<open>for idx in range(1, len(labelled))\<close>.\<close>

definition process_row :: "real \<Rightarrow> nat \<Rightarrow> tracker_state \<Rightarrow> failure + tracker_state" where
  "process_row max_position_change idx st =
     (let r = labelled st ! idx;
          markers = markers_of r
      in if idx = 1 then
           (if length markers \<noteq> 2 then Inl (InitialMarkerCount (length markers))
            else Inr (st\<lparr>prev := \<lparr>prev_marker1 = Some (markers ! 0),
                                  prev_marker2 = Some (markers ! 1)\<rparr>\<rparr>))
         else
           (let ds = distances max_position_change markers (items (prev st))
            in if length ds \<noteq> 2 then Inl (MarkerLostTrack idx)
               else
                 (let curr_pos = fst (ds ! 0);
                      marker_id = fst (snd (ds ! 0));
                      second = fst (ds ! 1);
                      r' = (if marker_id = marker1
                            then set_position marker2 second (set_position marker1 curr_pos r)
                            else set_position marker1 second (set_position marker2 curr_pos r));
                      lab = (labelled st)[idx := r']
                  in Inr \<lparr>prev = \<lparr>prev_marker1 = Some (position marker1 (lab ! idx)),
                                   prev_marker2 = Some (position marker2 (lab ! idx))\<rparr>,
                          labelled = lab\<rparr>)))"

fun run_rows :: "real \<Rightarrow> nat list \<Rightarrow> tracker_state \<Rightarrow> failure + tracker_state" where
  "run_rows max_position_change [] st = Inr st"
| "run_rows max_position_change (idx # idxs) st =
     (case process_row max_position_change idx st of
        Inl e \<Rightarrow> Inl e
      | Inr st' \<Rightarrow> run_rows max_position_change idxs st')"

definition initial_state :: "dataframe \<Rightarrow> tracker_state" where
  "initial_state df =
     \<lparr>prev = \<lparr>prev_marker1 = None, prev_marker2 = None\<rparr>, labelled = rows df\<rparr>"

text \<open>\<^verbatim>\<open>label_markers\<close>: the result is the frame written to the labelled file
  (\<^verbatim>\<open>labelled.iloc[:, :6]\<close>), or the reason why no file is written.\<close>

definition label_markers :: "dataframe \<Rightarrow> real \<Rightarrow> failure + dataframe" where
  "label_markers df max_position_change =
     (if ncols df < 6 then Inl (NotEnoughColumns (ncols df))
      else case run_rows max_position_change [1..<length (rows df)] (initial_state df) of
             Inl e \<Rightarrow> Inl e
           | Inr st \<Rightarrow> Inr \<lparr>ncols = 6, rows = map (take 6) (labelled st)\<rparr>)"

definition NDI_MAX_POSITION_CHANGE :: real where
  "NDI_MAX_POSITION_CHANGE = 5"

text \<open>The position an identity holds before row \<open>t\<close> is processed, read from the data:
  the two points bound at initialisation when \<open>t = 2\<close>, the cells of the preceding
  labelled row afterwards. This is what \<^verbatim>\<open>prev_pos\<close> holds at that moment.\<close>

definition resolved_before :: "dataframe \<Rightarrow> row list \<Rightarrow> nat \<Rightarrow> marker_id \<Rightarrow> point" where
  "resolved_before df lab t i =
     (if t = 2 then markers_of (rows df ! 1) ! (case i of marker1 \<Rightarrow> 0 | marker2 \<Rightarrow> 1)
      else position i (lab ! (t - 1)))"

text \<open>Continuity of a labelled row \<open>r_out\<close>, made from the input row \<open>r_in\<close>, with
  respect to the previous positions \<open>pv\<close>, as far as the assignment by elimination gives
  it: the row has exactly two candidates, the identity recorded in the first candidate
  holds the first candidate's point, within the gate of its own previous position, and
  the other identity holds the second candidate's point, within the gate of the previous
  position of the identity that the second candidate records.\<close>

definition gate_continuity :: "real \<Rightarrow> (marker_id \<Rightarrow> point) \<Rightarrow> row \<Rightarrow> row \<Rightarrow> bool" where
  "gate_continuity max_position_change pv r_in r_out =
     (let ds = distances max_position_change (markers_of r_in)
                 (items \<lparr>prev_marker1 = Some (pv marker1), prev_marker2 = Some (pv marker2)\<rparr>);
          i1 = fst (snd (ds ! 0));
          i2 = fst (snd (ds ! 1))
      in length ds = 2 \<and>
         position i1 r_out = fst (ds ! 0) \<and>
         position (other i1) r_out = fst (ds ! 1) \<and>
         norm_diff (position i1 r_out) (pv i1) < max_position_change \<and>
         norm_diff (position (other i1) r_out) (pv i2) < max_position_change)"

definition no_sentinel :: "row \<Rightarrow> bool" where
  "no_sentinel r = (\<not> is_sentinel (position marker1 r) \<and> \<not> is_sentinel (position marker2 r))"

text \<open>What holds of the state of the loop once the rows \<open>1, \<dots>, k - 1\<close> are processed.\<close>

definition tracker_inv :: "real \<Rightarrow> dataframe \<Rightarrow> nat \<Rightarrow> tracker_state \<Rightarrow> bool" where
  "tracker_inv m df k st =
     (length (labelled st) = length (rows df) \<and>
      (\<forall>j. length (labelled st ! j) = length (rows df ! j)) \<and>
      prev st = \<lparr>prev_marker1 = Some (resolved_before df (labelled st) k marker1),
                 prev_marker2 = Some (resolved_before df (labelled st) k marker2)\<rparr> \<and>
      length (markers_of (rows df ! 1)) = 2 \<and>
      (\<forall>t. 2 \<le> t \<and> t < k \<longrightarrow>
         gate_continuity m (resolved_before df (labelled st) t) (rows df ! t) (labelled st ! t) \<and>
         no_sentinel (labelled st ! t)))"


section \<open>Resampling\<close>

text \<open>The exceptions that end \<^verbatim>\<open>interpolate_data\<close>: indexing the empty time axis, and the
  refusal of the cubic fit.\<close>

datatype py_exception = IndexError | ValueError

text \<open>\<^verbatim>\<open>np.arange(start, stop, step)\<close> of NumPy, over the reals: \<open>ceil((stop - start) / step)\<close>
  values \<open>start + j * step\<close>.\<close>

definition np_arange :: "real \<Rightarrow> real \<Rightarrow> real \<Rightarrow> real list" where
  "np_arange start stop step =
     map (\<lambda>j. start + real j * step) [0..<nat \<lceil>(stop - start) / step\<rceil>]"

text \<open>The values of a fitted curve: abscissae, ordinates, argument.\<close>

type_synonym curve = "real list \<Rightarrow> real list \<Rightarrow> real \<Rightarrow> real"

text \<open>Modelled from the spec: \<^verbatim>\<open>scipy.interpolate.interp1d\<close> with \<^verbatim>\<open>kind='cubic'\<close>,
  \<^verbatim>\<open>bounds_error=False\<close> and \<^verbatim>\<open>fill_value='extrapolate'\<close> is library code outside the
  repository. The specification says that a cubic fit needs at least 4 samples and that a
  value outside the source range is produced by extrapolation. The cubic interpolant and
  its extrapolation are parameters of the model.\<close>

definition interp1d ::
  "curve \<Rightarrow> curve \<Rightarrow> real list \<Rightarrow> real list \<Rightarrow> py_exception + (real \<Rightarrow> real)"
where
  "interp1d cubic extrapolate x y =
     (if length x < 4 then Inl ValueError
      else Inr (\<lambda>t. if hd x \<le> t \<and> t \<le> last x then cubic x y t else extrapolate x y t))"

text \<open>\<^verbatim>\<open>np.arange(len(df)) / ORIGINAL_FRAME_RATE\<close>\<close>

definition original_time :: "nat \<Rightarrow> real \<Rightarrow> real list" where
  "original_time n ORIGINAL_FRAME_RATE = map (\<lambda>i. real i / ORIGINAL_FRAME_RATE) [0..<n]"

text \<open>\<^verbatim>\<open>np.arange(0, original_time[-1], 1/DESIRED_FRAME_RATE)\<close>; the index \<open>-1\<close> raises on the
  empty array.\<close>

definition desired_time :: "real list \<Rightarrow> real \<Rightarrow> py_exception + real list" where
  "desired_time original DESIRED_FRAME_RATE =
     (if original = [] then Inl IndexError
      else Inr (np_arange 0 (last original) (1 / DESIRED_FRAME_RATE)))"

definition column :: "dataframe \<Rightarrow> nat \<Rightarrow> real list" where
  "column df c = map (\<lambda>r. r ! c) (rows df)"

text \<open>The loop \<^verbatim>\<open>for column in df.columns\<close>, which fills \<^verbatim>\<open>interpolated_data\<close>.\<close>

fun interpolate_columns ::
  "curve \<Rightarrow> curve \<Rightarrow> real list \<Rightarrow> real list \<Rightarrow> real list list \<Rightarrow> py_exception + real list list"
where
  "interpolate_columns cubic extrapolate original desired [] = Inr []"
| "interpolate_columns cubic extrapolate original desired (col # cols) =
     (case interp1d cubic extrapolate original col of
        Inl e \<Rightarrow> Inl e
      | Inr f \<Rightarrow>
          (case interpolate_columns cubic extrapolate original desired cols of
             Inl e \<Rightarrow> Inl e
           | Inr rest \<Rightarrow> Inr (map f desired # rest)))"

text \<open>\<^verbatim>\<open>pd.DataFrame(interpolated_data)\<close>: a frame from columns of equal length.\<close>

definition from_columns :: "real list list \<Rightarrow> dataframe" where
  "from_columns cols =
     \<lparr>ncols = length cols,
      rows = (case cols of [] \<Rightarrow> []
              | c # _ \<Rightarrow> map (\<lambda>j. map (\<lambda>col. col ! j) cols) [0..<length c])\<rparr>"

text \<open>\<^verbatim>\<open>interpolate_data\<close>, with the two frame rates of the configuration as parameters.
  The result is the frame written to the interpolated file.\<close>

definition interpolate_data ::
  "curve \<Rightarrow> curve \<Rightarrow> real \<Rightarrow> real \<Rightarrow> dataframe \<Rightarrow> py_exception + dataframe"
where
  "interpolate_data cubic extrapolate ORIGINAL_FRAME_RATE DESIRED_FRAME_RATE df =
     (let original = original_time (length (rows df)) ORIGINAL_FRAME_RATE
      in case desired_time original DESIRED_FRAME_RATE of
           Inl e \<Rightarrow> Inl e
         | Inr desired \<Rightarrow>
             (case interpolate_columns cubic extrapolate original desired
                     (map (column df) [0..<ncols df]) of
                Inl e \<Rightarrow> Inl e
              | Inr cols \<Rightarrow> Inr (from_columns cols)))"

definition NDI_ORIGINAL_FRAME_RATE :: real where
  "NDI_ORIGINAL_FRAME_RATE = 60"

definition NDI_DESIRED_FRAME_RATE :: real where
  "NDI_DESIRED_FRAME_RATE = 100"

section \<open>Evaluation on concrete rows\<close>

lemma norm_diff_less_iff:
  "norm_diff (x, y, z) (x', y', z') < m \<longleftrightarrow>
     0 < m \<and> (x - x')\<^sup>2 + (y - y')\<^sup>2 + (z - z')\<^sup>2 < m\<^sup>2"
proof -
  let ?s = "(x - x')\<^sup>2 + (y - y')\<^sup>2 + (z - z')\<^sup>2"
  have s: "0 \<le> sqrt ?s" by simp
  show ?thesis
  proof (cases "0 < m")
    case True
    then have "sqrt ?s < m \<longleftrightarrow> sqrt ?s < sqrt (m\<^sup>2)" by simp
    also have "\<dots> \<longleftrightarrow> ?s < m\<^sup>2" by (rule real_sqrt_less_iff)
    finally show ?thesis using True by simp
  next
    case False
    with s have "\<not> sqrt ?s < m" by linarith
    with False show ?thesis by simp
  qed
qed

declare norm_diff.simps [simp del]


lemma upt_1_3: "[Suc 0..<3] = [Suc 0, 2]"
  by (simp add: upt_rec)

lemma upt_1_4: "[Suc 0..<4] = [Suc 0, 2, 3]"
  by (simp add: upt_rec)

lemma markers_of_6:
  "markers_of [a, b, c, d, e, f] = filter (\<lambda>p. \<not> is_sentinel p) [(a, b, c), (d, e, f)]"
  by (simp add: markers_of_def marker_at_def upt_1_3)

lemma markers_of_9:
  "markers_of [a, b, c, d, e, f, g, h, i] =
     filter (\<lambda>p. \<not> is_sentinel p) [(a, b, c), (d, e, f), (g, h, i)]"
  by (simp add: markers_of_def marker_at_def upt_1_4)

lemma position_Cons:
  "position marker1 (a # b # c # r) = (a, b, c)"
  "position marker2 (a # b # c # d # e # f # r) = (d, e, f)"
  by (simp_all add: eval_nat_numeral)

lemma set_position_Cons:
  "set_position marker1 (x, y, z) (a # b # c # r) = x # y # z # r"
  "set_position marker2 (x, y, z) (a # b # c # d # e # f # r) = a # b # c # x # y # z # r"
  by (simp_all add: eval_nat_numeral)

lemma take_6_Cons: "take 6 (a # b # c # d # e # f # r) = [a, b, c, d, e, f]"
  by (simp add: eval_nat_numeral)

lemmas tracker_eval =
  label_markers_def initial_state_def process_row_def markers_of_6 markers_of_9
  is_sentinel_def items_def norm_diff_less_iff Let_def position_Cons set_position_Cons
  take_6_Cons

section \<open>The row loop leaves the other rows alone\<close>

lemma run_rows_append:
  "run_rows m (xs @ ys) st =
     (case run_rows m xs st of Inl e \<Rightarrow> Inl e | Inr st' \<Rightarrow> run_rows m ys st')"
  by (induction xs arbitrary: st) (auto split: sum.splits)

lemma process_row_length:
  "process_row m idx st = Inr st' \<Longrightarrow> length (labelled st') = length (labelled st)"
  by (auto simp: process_row_def Let_def split: if_splits)

lemma process_row_other_rows:
  "process_row m idx st = Inr st' \<Longrightarrow> idx = 1 \<or> idx \<noteq> j \<Longrightarrow>
     labelled st' ! j = labelled st ! j"
  by (auto simp: process_row_def Let_def split: if_splits)

lemma run_rows_length:
  "run_rows m idxs st = Inr st' \<Longrightarrow> length (labelled st') = length (labelled st)"
proof (induction idxs arbitrary: st)
  case Nil
  then show ?case by simp
next
  case (Cons idx idxs)
  then show ?case
    by (auto split: sum.splits dest: process_row_length)
qed

lemma run_rows_other_rows:
  "run_rows m idxs st = Inr st' \<Longrightarrow> \<forall>idx \<in> set idxs. idx = 1 \<or> idx \<noteq> j \<Longrightarrow>
     labelled st' ! j = labelled st ! j"
proof (induction idxs arbitrary: st)
  case Nil
  then show ?case by simp
next
  case (Cons idx idxs)
  from Cons.prems(1) obtain st1 where
    s1: "process_row m idx st = Inr st1" and s2: "run_rows m idxs st1 = Inr st'"
    by (auto split: sum.splits)
  from Cons.prems(2) have "idx = 1 \<or> idx \<noteq> j" and rest: "\<forall>i \<in> set idxs. i = 1 \<or> i \<noteq> j"
    by simp_all
  with s1 have "labelled st1 ! j = labelled st ! j"
    by (simp add: process_row_other_rows)
  moreover from Cons.IH [OF s2 rest] have "labelled st' ! j = labelled st1 ! j" .
  ultimately show ?case by simp
qed

lemma label_markers_success:
  "label_markers df m = Inr out \<Longrightarrow>
     \<exists>st. run_rows m [1..<length (rows df)] (initial_state df) = Inr st \<and>
          out = \<lparr>ncols = 6, rows = map (take 6) (labelled st)\<rparr> \<and> 6 \<le> ncols df"
  by (auto simp: label_markers_def split: if_splits sum.splits)

text \<open>
  Claim C8. When the frame given to \<^verbatim>\<open>label_markers\<close> has at least 6 columns and fewer
  than 2 rows, the loop over the rows has nothing to do: no marker count is checked,
  nothing fails, and the labelled frame is the input cut to its first 6 columns.
\<close>

theorem label_markers_short_input:
  assumes "6 \<le> ncols df" and "length (rows df) < 2"
  shows "label_markers df m = Inr \<lparr>ncols = 6, rows = map (take 6) (rows df)\<rparr>"
proof -
  from assms(2) have "length (rows df) \<le> Suc 0" by simp
  then have "[Suc 0..<length (rows df)] = []" by simp
  with assms(1) show ?thesis
    by (simp add: label_markers_def initial_state_def del: upt_eq_Nil_conv)
qed

text \<open>A single row holding only the zero triple in its first two slots and a third point:
  it is written out, cut to 6 columns, without any check.\<close>

theorem label_markers_short_input_witness:
  "label_markers \<lparr>ncols = 9, rows = [[0, 0, 0, 0, 0, 0, 7, 8, 9]]\<rparr> 5 =
     Inr \<lparr>ncols = 6, rows = [[0, 0, 0, 0, 0, 0]]\<rparr>"
  using label_markers_short_input [of "\<lparr>ncols = 9, rows = [[0, 0, 0, 0, 0, 0, 7, 8, 9]]\<rparr>" 5]
  by (simp add: take_6_Cons)

text \<open>
  Claim C9. \<^verbatim>\<open>label_markers\<close> never writes to the rows of index 0 and 1: in every
  successful run the output rows 0 and 1 are the input rows cut to their first 6
  columns, whatever they hold, zero triples included.
\<close>

theorem label_markers_first_two_rows_unchanged:
  assumes "label_markers df m = Inr out" and "i < 2" and "i < length (rows df)"
  shows "rows out ! i = take 6 (rows df ! i)"
proof -
  from assms(1) obtain st where
    run: "run_rows m [1..<length (rows df)] (initial_state df) = Inr st" and
    out: "out = \<lparr>ncols = 6, rows = map (take 6) (labelled st)\<rparr>"
    using label_markers_success by blast
  have len: "length (labelled st) = length (rows df)"
    using run_rows_length [OF run] by (simp add: initial_state_def)
  have "\<forall>idx \<in> set [1..<length (rows df)]. idx = 1 \<or> idx \<noteq> i"
    using assms(2) by auto
  from run_rows_other_rows [OF run this]
  have "labelled st ! i = rows df ! i" by (simp add: initial_state_def)
  with len assms(3) out show ?thesis by simp
qed

theorem label_markers_first_two_rows_unchanged_witness:
  "label_markers
     \<lparr>ncols = 6, rows = [[0, 0, 0, 4, 4, 4], [1, 1, 1, 20, 20, 20], [20, 20, 20, 1, 1, 1]]\<rparr> 5 =
     Inr \<lparr>ncols = 6,
          rows = [[0, 0, 0, 4, 4, 4], [1, 1, 1, 20, 20, 20], [1, 1, 1, 20, 20, 20]]\<rparr> \<and>
   [[0, 0, 0, 4, 4, 4], [1, 1, 1, 20, 20, 20], [1, 1, 1, 20, 20, 20 :: real]] ! 0 =
     take 6 ([[0, 0, 0, 4, 4, 4], [1, 1, 1, 20, 20, 20], [20, 20, 20, 1, 1, 1]] ! 0)"
proof -
  let ?df = "\<lparr>ncols = 6,
    rows = [[0, 0, 0, 4, 4, 4], [1, 1, 1, 20, 20, 20], [20, 20, 20, 1, 1, 1 :: real]]\<rparr>"
  let ?out = "\<lparr>ncols = 6,
    rows = [[0, 0, 0, 4, 4, 4], [1, 1, 1, 20, 20, 20], [1, 1, 1, 20, 20, 20 :: real]]\<rparr>"
  have run: "label_markers ?df 5 = Inr ?out"
    by (simp add: tracker_eval)
  from label_markers_first_two_rows_unchanged [OF run, of 0] run
  show ?thesis by simp
qed

section \<open>One row of the loop\<close>

lemma match_marker_mem:
  "(p, i, d) \<in> set (match_marker m mk its) \<Longrightarrow>
     p = mk \<and> (\<exists>pv. (i, Some pv) \<in> set its \<and> d = norm_diff mk pv \<and> d < m)"
  by (induction m mk its rule: match_marker.induct) (auto simp: Let_def split: if_splits)

lemma distances_mem:
  "(p, i, d) \<in> set (distances m pts its) \<Longrightarrow>
     p \<in> set pts \<and> (\<exists>pv. (i, Some pv) \<in> set its \<and> d = norm_diff p pv \<and> d < m)"
proof (induction pts)
  case Nil
  then show ?case by simp
next
  case (Cons q pts)
  from Cons.prems consider
    (here) "(p, i, d) \<in> set (match_marker m q its)" |
    (later) "(p, i, d) \<in> set (distances m pts its)"
    by auto
  then show ?case
  proof cases
    case here
    from match_marker_mem [OF here] show ?thesis by simp
  next
    case later
    from Cons.IH [OF later] show ?thesis by simp
  qed
qed

lemma distances_initialised:
  assumes "(p, i, d) \<in> set (distances m pts (items \<lparr>prev_marker1 = Some (pv marker1),
                                                      prev_marker2 = Some (pv marker2)\<rparr>))"
  shows "p \<in> set pts" and "norm_diff p (pv i) < m" and "d = norm_diff p (pv i)"
proof -
  from distances_mem [OF assms] obtain q where
    p: "p \<in> set pts" and q: "(i, Some q) \<in> set (items \<lparr>prev_marker1 = Some (pv marker1),
                                                      prev_marker2 = Some (pv marker2)\<rparr>)"
    and d: "d = norm_diff p q" "d < m" by blast
  from q have "q = pv i" by (auto simp: items_def)
  with p d show "p \<in> set pts" and "norm_diff p (pv i) < m" and "d = norm_diff p (pv i)"
    by simp_all
qed

lemma markers_of_not_sentinel: "p \<in> set (markers_of r) \<Longrightarrow> \<not> is_sentinel p"
  by (simp add: markers_of_def)

lemma length_set_position [simp]: "length (set_position i p r) = length r"
  by (cases i; cases p) simp_all

lemma row_6_shape:
  "6 \<le> length r \<Longrightarrow> \<exists>a b c d e f rest. r = a # b # c # d # e # f # rest"
  by (auto simp: eval_nat_numeral Suc_le_length_iff)

lemma position_set_position_same:
  assumes "6 \<le> length r"
  shows "position i (set_position i p r) = p"
proof -
  from row_6_shape [OF assms] obtain a b c d e f rest where
    r: "r = a # b # c # d # e # f # rest" by blast
  show ?thesis
    by (cases i; cases p) (simp_all only: r set_position_Cons position_Cons)
qed

lemma position_set_position_other:
  "position (other i) (set_position i p r) = position (other i) r"
  by (cases i; cases p) simp_all

lemma other_other [simp]: "other (other i) = i"
  by (cases i) simp_all

lemma position_take_6: "6 \<le> length r \<Longrightarrow> position i (take 6 r) = position i r"
  by (cases i) simp_all

text \<open>The two branches of the assignment are one: the identity of the first candidate
  takes the first point, the other identity takes the second point.\<close>

lemma position_assigned:
  assumes "6 \<le> length r"
  shows "position i (set_position (other i) q (set_position i p r)) = p"
    and "position (other i) (set_position (other i) q (set_position i p r)) = q"
proof -
  have "position i (set_position (other i) q (set_position i p r)) =
          position (other (other i)) (set_position (other i) q (set_position i p r))"
    by simp
  also have "\<dots> = position (other (other i)) (set_position i p r)"
    by (rule position_set_position_other)
  also have "\<dots> = p" using assms by (simp add: position_set_position_same)
  finally show "position i (set_position (other i) q (set_position i p r)) = p" .
  show "position (other i) (set_position (other i) q (set_position i p r)) = q"
    using assms by (simp add: position_set_position_same)
qed

lemma process_row_update:
  assumes "idx \<noteq> 1" and "process_row m idx st = Inr st'"
  defines "ds \<equiv> distances m (markers_of (labelled st ! idx)) (items (prev st))"
  defines "r' \<equiv> set_position (other (fst (snd (ds ! 0)))) (fst (ds ! 1))
                  (set_position (fst (snd (ds ! 0))) (fst (ds ! 0)) (labelled st ! idx))"
  shows "length ds = 2" and "labelled st' = (labelled st)[idx := r']"
    and "prev st' = \<lparr>prev_marker1 = Some (position marker1 (labelled st' ! idx)),
                    prev_marker2 = Some (position marker2 (labelled st' ! idx))\<rparr>"
proof -
  from assms(1,2) show len: "length ds = 2"
    by (auto simp: process_row_def Let_def ds_def split: if_splits)
  have r': "r' = (if fst (snd (ds ! 0)) = marker1
             then set_position marker2 (fst (ds ! 1))
                    (set_position marker1 (fst (ds ! 0)) (labelled st ! idx))
             else set_position marker1 (fst (ds ! 1))
                    (set_position marker2 (fst (ds ! 0)) (labelled st ! idx)))"
    by (cases "fst (snd (ds ! 0))") (simp_all add: r'_def)
  from assms(1,2) len show "labelled st' = (labelled st)[idx := r']"
    unfolding r' by (auto simp: process_row_def Let_def ds_def split: if_splits)
  from assms(1,2) len
  show "prev st' = \<lparr>prev_marker1 = Some (position marker1 (labelled st' ! idx)),
                    prev_marker2 = Some (position marker2 (labelled st' ! idx))\<rparr>"
    by (auto simp: process_row_def Let_def ds_def split: if_splits)
qed

lemma process_row_succeeds:
  assumes "idx \<noteq> 1"
    and "length (distances m (markers_of (labelled st ! idx)) (items (prev st))) = 2"
  shows "\<exists>st'. process_row m idx st = Inr st'"
  using assms by (simp add: process_row_def Let_def)


lemma process_row_assignment:
  assumes "idx \<noteq> 1" and "process_row m idx st = Inr st'"
    and "idx < length (labelled st)" and "6 \<le> length (labelled st ! idx)"
  defines "ds \<equiv> distances m (markers_of (labelled st ! idx)) (items (prev st))"
  shows "position (fst (snd (ds ! 0))) (labelled st' ! idx) = fst (ds ! 0)"
    and "position (other (fst (snd (ds ! 0)))) (labelled st' ! idx) = fst (ds ! 1)"
proof -
  let ?r' = "set_position (other (fst (snd (ds ! 0)))) (fst (ds ! 1))
               (set_position (fst (snd (ds ! 0))) (fst (ds ! 0)) (labelled st ! idx))"
  from process_row_update(2) [OF assms(1,2)] assms(3)
  have row: "labelled st' ! idx = ?r'" by (simp add: ds_def)
  show "position (fst (snd (ds ! 0))) (labelled st' ! idx) = fst (ds ! 0)"
    unfolding row using assms(4) by (rule position_assigned(1))
  show "position (other (fst (snd (ds ! 0)))) (labelled st' ! idx) = fst (ds ! 1)"
    unfolding row using assms(4) by (rule position_assigned(2))
qed

lemma process_row_continuity:
  assumes "idx \<noteq> 1" and "process_row m idx st = Inr st'"
    and "idx < length (labelled st)" and "6 \<le> length (labelled st ! idx)"
    and "prev st = \<lparr>prev_marker1 = Some (pv marker1), prev_marker2 = Some (pv marker2)\<rparr>"
  shows "gate_continuity m pv (labelled st ! idx) (labelled st' ! idx)"
    and "no_sentinel (labelled st' ! idx)"
proof -
  define ds where "ds = distances m (markers_of (labelled st ! idx)) (items (prev st))"
  have len: "length ds = 2"
    using process_row_update(1) [OF assms(1,2)] by (simp add: ds_def)
  obtain p1 i1 d1 where c1: "ds ! 0 = (p1, i1, d1)" by (cases "ds ! 0") auto
  obtain p2 i2 d2 where c2: "ds ! 1 = (p2, i2, d2)" by (cases "ds ! 1") auto
  from len have "ds ! 0 \<in> set ds" and "ds ! 1 \<in> set ds" by simp_all
  with c1 c2 have m1: "(p1, i1, d1) \<in> set ds" and m2: "(p2, i2, d2) \<in> set ds" by simp_all
  from m1 have n1: "norm_diff p1 (pv i1) < m"
    unfolding ds_def assms(5) by (rule distances_initialised(2))
  from m2 have n2: "norm_diff p2 (pv i2) < m"
    unfolding ds_def assms(5) by (rule distances_initialised(2))
  from m1 have "p1 \<in> set (markers_of (labelled st ! idx))"
    unfolding ds_def assms(5) by (rule distances_initialised(1))
  then have s1: "\<not> is_sentinel p1" by (rule markers_of_not_sentinel)
  from m2 have "p2 \<in> set (markers_of (labelled st ! idx))"
    unfolding ds_def assms(5) by (rule distances_initialised(1))
  then have s2: "\<not> is_sentinel p2" by (rule markers_of_not_sentinel)
  from process_row_assignment [OF assms(1-4)] c1 c2
  have pos: "position i1 (labelled st' ! idx) = p1"
    "position (other i1) (labelled st' ! idx) = p2"
    by (simp_all add: ds_def)
  have ds: "distances m (markers_of (labelled st ! idx))
      (items \<lparr>prev_marker1 = Some (pv marker1), prev_marker2 = Some (pv marker2)\<rparr>) = ds"
    by (simp only: ds_def assms(5))
  from len c1 c2 pos n1 n2 show "gate_continuity m pv (labelled st ! idx) (labelled st' ! idx)"
    unfolding gate_continuity_def ds by (simp add: Let_def)
  from pos s1 s2 show "no_sentinel (labelled st' ! idx)"
    unfolding no_sentinel_def by (cases i1) simp_all
qed

lemma process_row_row_lengths:
  assumes "process_row m idx st = Inr st'"
  shows "length (labelled st' ! j) = length (labelled st ! j)"
proof (cases "idx = 1")
  case True
  with assms show ?thesis by (simp add: process_row_other_rows)
next
  case False
  note upd = process_row_update(2) [OF False assms]
  show ?thesis
  proof (cases "j = idx \<and> idx < length (labelled st)")
    case True
    then show ?thesis unfolding upd by simp
  next
    case False
    then show ?thesis unfolding upd
      by (cases "idx < length (labelled st)") (simp_all add: list_update_beyond not_less)
  qed
qed

lemma process_row_init:
  assumes "process_row m 1 st = Inr st'"
  shows "labelled st' = labelled st"
    and "prev st' = \<lparr>prev_marker1 = Some (markers_of (labelled st ! 1) ! 0),
                    prev_marker2 = Some (markers_of (labelled st ! 1) ! 1)\<rparr>"
    and "length (markers_of (labelled st ! 1)) = 2"
  using assms by (auto simp: process_row_def Let_def split: if_splits)

section \<open>The invariant of the loop\<close>

lemma resolved_before_cong:
  "lab ! (t - 1) = lab' ! (t - 1) \<Longrightarrow> resolved_before df lab t = resolved_before df lab' t"
  by (auto simp: resolved_before_def fun_eq_iff)

lemma tracker_inv_start:
  assumes "run_rows m [1..<2] (initial_state df) = Inr st"
  shows "tracker_inv m df 2 st"
proof -
  have "[1..<2] = [1::nat]" by (simp add: upt_rec)
  with assms have p: "process_row m 1 (initial_state df) = Inr st"
    by (simp split: sum.splits)
  from process_row_init [OF p] show ?thesis
    by (auto simp: tracker_inv_def initial_state_def resolved_before_def)
qed

lemma tracker_inv_step:
  assumes inv: "tracker_inv m df k st" and k: "2 \<le> k" "k < length (rows df)"
    and wide: "6 \<le> length (rows df ! k)"
    and unchanged: "labelled st ! k = rows df ! k"
    and step: "process_row m k st = Inr st'"
  shows "tracker_inv m df (Suc k) st'"
proof -
  from k have k1: "k \<noteq> 1" by simp
  let ?pv = "resolved_before df (labelled st) k"
  from inv have len: "length (labelled st) = length (rows df)"
    and lens: "\<And>j. length (labelled st ! j) = length (rows df ! j)"
    and pv: "prev st = \<lparr>prev_marker1 = Some (?pv marker1), prev_marker2 = Some (?pv marker2)\<rparr>"
    and init: "length (markers_of (rows df ! 1)) = 2"
    and cont: "\<And>t. 2 \<le> t \<Longrightarrow> t < k \<Longrightarrow>
        gate_continuity m (resolved_before df (labelled st) t) (rows df ! t) (labelled st ! t) \<and>
        no_sentinel (labelled st ! t)"
    by (simp_all add: tracker_inv_def)
  have kl: "k < length (labelled st)" using k len by simp
  have w: "6 \<le> length (labelled st ! k)" using wide unchanged by simp
  have other: "\<And>j. j \<noteq> k \<Longrightarrow> labelled st' ! j = labelled st ! j"
    using process_row_other_rows [OF step] by auto
  have "gate_continuity m ?pv (labelled st ! k) (labelled st' ! k)"
    using k1 step kl w pv by (rule process_row_continuity(1))
  then have c: "gate_continuity m ?pv (rows df ! k) (labelled st' ! k)"
    by (simp only: unchanged)
  have ns: "no_sentinel (labelled st' ! k)"
    using k1 step kl w pv by (rule process_row_continuity(2))
  have "length (labelled st') = length (rows df)"
    using process_row_length [OF step] len by simp
  moreover have "\<forall>j. length (labelled st' ! j) = length (rows df ! j)"
    using process_row_row_lengths [OF step] lens by simp
  moreover have "prev st' =
      \<lparr>prev_marker1 = Some (resolved_before df (labelled st') (Suc k) marker1),
       prev_marker2 = Some (resolved_before df (labelled st') (Suc k) marker2)\<rparr>"
    using process_row_update(3) [OF k1 step] k by (simp add: resolved_before_def)
  moreover note init
  moreover have "\<forall>t. 2 \<le> t \<and> t < Suc k \<longrightarrow>
        gate_continuity m (resolved_before df (labelled st') t) (rows df ! t) (labelled st' ! t) \<and>
        no_sentinel (labelled st' ! t)"
  proof (intro allI impI)
    fix t assume t: "2 \<le> t \<and> t < Suc k"
    then have tm: "t - 1 \<noteq> k" by arith
    have rb: "resolved_before df (labelled st') t = resolved_before df (labelled st) t"
      by (rule resolved_before_cong) (rule other [OF tm])
    show "gate_continuity m (resolved_before df (labelled st') t) (rows df ! t)
          (labelled st' ! t) \<and>
        no_sentinel (labelled st' ! t)"
    proof (cases "t = k")
      case True
      with c ns rb show ?thesis by simp
    next
      case False
      with t have "t < k" by simp
      with cont t have "gate_continuity m (resolved_before df (labelled st) t) (rows df ! t)
          (labelled st ! t) \<and>
        no_sentinel (labelled st ! t)"
        by simp
      with rb other [OF False] show ?thesis by simp
    qed
  qed
  ultimately show ?thesis by (simp add: tracker_inv_def)
qed

lemma run_rows_upto_Suc:
  assumes "1 \<le> k" and "run_rows m [1..<Suc k] st0 = Inr st'"
  obtains st where "run_rows m [1..<k] st0 = Inr st" and "process_row m k st = Inr st'"
proof -
  from assms(1) have "[1..<Suc k] = [1..<k] @ [k]" by simp
  with assms(2) show ?thesis
    using that by (auto simp: run_rows_append simp del: upt_Suc split: sum.splits)
qed

lemma run_rows_prefix_unchanged:
  assumes "run_rows m [1..<k] (initial_state df) = Inr st" and "k \<le> j"
  shows "labelled st ! j = rows df ! j"
proof -
  from assms(2) have "\<forall>idx \<in> set [1..<k]. idx = 1 \<or> idx \<noteq> j" by auto
  from run_rows_other_rows [OF assms(1) this] show ?thesis
    by (simp add: initial_state_def)
qed

lemma tracker_inv_holds:
  assumes wide: "\<forall>r \<in> set (rows df). 6 \<le> length r"
  shows "2 \<le> k \<Longrightarrow> k \<le> length (rows df) \<Longrightarrow>
     run_rows m [1..<k] (initial_state df) = Inr st \<Longrightarrow> tracker_inv m df k st"
proof (induction k arbitrary: st)
  case 0
  then show ?case by simp
next
  case (Suc k)
  show ?case
  proof (cases "k = 1")
    case True
    with Suc.prems(3) show ?thesis
      using tracker_inv_start [of m df st] by (simp add: numeral_2_eq_2)
  next
    case False
    with Suc.prems(1) have k: "2 \<le> k" by simp
    then have "1 \<le> k" by simp
    from run_rows_upto_Suc [OF this Suc.prems(3)] obtain st0 where
      r0: "run_rows m [1..<k] (initial_state df) = Inr st0" and
      p: "process_row m k st0 = Inr st" by blast
    from Suc.prems(2) have kl: "k < length (rows df)" by simp
    from Suc.IH [OF k _ r0] kl have inv: "tracker_inv m df k st0" by simp
    from wide kl have w: "6 \<le> length (rows df ! k)" by simp
    have u: "labelled st0 ! k = rows df ! k"
      using run_rows_prefix_unchanged [OF r0] by simp
    from tracker_inv_step [OF inv k kl w u p] show ?thesis .
  qed
qed

lemma wf_dataframe_wide:
  "wf_dataframe df \<Longrightarrow> 6 \<le> ncols df \<Longrightarrow> \<forall>r \<in> set (rows df). 6 \<le> length r"
  by (simp add: wf_dataframe_def list_all_iff)

text \<open>In a row of exactly 6 cells with two valid points, these are the two triples.\<close>

lemma markers_of_full_6:
  assumes "length r = 6" and "length (markers_of r) = 2"
  shows "markers_of r ! (case i of marker1 \<Rightarrow> 0 | marker2 \<Rightarrow> 1) = position i r"
proof -
  from assms(1) have "6 \<le> length r" by simp
  from row_6_shape [OF this] obtain a b c d e f rest where
    r: "r = a # b # c # d # e # f # rest" by blast
  with assms(1) have rest: "rest = []" by simp
  from assms(2) have "\<not> is_sentinel (a, b, c)" and "\<not> is_sentinel (d, e, f)"
    unfolding r rest markers_of_6 by (auto split: if_splits)
  then have "markers_of r = [(a, b, c), (d, e, f)]"
    unfolding r rest markers_of_6 by simp
  then show ?thesis
    by (cases i) (simp_all add: r position_Cons)
qed

lemma gate_continuity_cong:
  "(\<And>i. position i r = position i r') \<Longrightarrow>
     gate_continuity m pv r_in r = gate_continuity m pv r_in r'"
  by (simp add: gate_continuity_def)

lemma other_cases: "i2 \<noteq> i1 \<Longrightarrow> i2 = other i1"
  by (cases i1; cases i2) simp_all

text \<open>The invariant, read on the output of a successful run.\<close>

lemma label_markers_rows_from_2:
  assumes wf: "wf_dataframe df" and ok: "label_markers df m = Inr out"
    and t: "2 \<le> t" "t < length (rows out)"
  shows "gate_continuity m (resolved_before df (rows out) t) (rows df ! t) (rows out ! t)"
    and "no_sentinel (rows out ! t)"
    and "ncols df = 6 \<Longrightarrow> resolved_before df (rows out) t i = position i (rows out ! (t - 1))"
proof -
  from ok obtain st where
    run: "run_rows m [1..<length (rows df)] (initial_state df) = Inr st" and
    out: "out = \<lparr>ncols = 6, rows = map (take 6) (labelled st)\<rparr>" and c6: "6 \<le> ncols df"
    using label_markers_success by blast
  have wide: "\<forall>r \<in> set (rows df). 6 \<le> length r"
    using wf c6 by (rule wf_dataframe_wide)
  have len: "length (labelled st) = length (rows df)"
    using run_rows_length [OF run] by (simp add: initial_state_def)
  with t out have tl: "t < length (rows df)" by simp
  with t have n2: "2 \<le> length (rows df)" by simp
  from tracker_inv_holds [OF wide n2 _ run] have inv: "tracker_inv m df (length (rows df)) st"
    by simp
  then have lens: "\<And>j. length (labelled st ! j) = length (rows df ! j)"
    and init: "length (markers_of (rows df ! 1)) = 2"
    and at: "gate_continuity m (resolved_before df (labelled st) t) (rows df ! t) (labelled st ! t)"
      "no_sentinel (labelled st ! t)"
    using t tl by (simp_all add: tracker_inv_def)
  have w: "\<And>j. j < length (rows df) \<Longrightarrow> 6 \<le> length (labelled st ! j)"
    using wide lens by simp
  have row: "\<And>j i. j < length (rows df) \<Longrightarrow>
      position i (rows out ! j) = position i (labelled st ! j)"
    using out len w by (simp add: position_take_6)
  from t tl have t1: "t - 1 < length (rows df)" by simp
  then have "\<And>i. resolved_before df (rows out) t i = resolved_before df (labelled st) t i"
    by (simp add: resolved_before_def row)
  then have rb: "resolved_before df (rows out) t = resolved_before df (labelled st) t"
    by (simp add: fun_eq_iff)
  have "gate_continuity m (resolved_before df (labelled st) t) (rows df ! t) (rows out ! t) =
        gate_continuity m (resolved_before df (labelled st) t) (rows df ! t) (labelled st ! t)"
    by (rule gate_continuity_cong) (rule row [OF tl])
  with at(1) show "gate_continuity m (resolved_before df (rows out) t) (rows df ! t) (rows out ! t)"
    unfolding rb by simp
  from at(2) show "no_sentinel (rows out ! t)"
    unfolding no_sentinel_def by (simp add: row [OF tl])
  show "resolved_before df (rows out) t i = position i (rows out ! (t - 1))" if six: "ncols df = 6"
  proof (cases "t = 2")
    case False
    then show ?thesis by (simp add: resolved_before_def)
  next
    case True
    from n2 have l1: "1 < length (rows df)" by simp
    then have "rows df ! 1 \<in> set (rows df)" by simp
    with wf six have r6: "length (rows df ! 1) = 6"
      by (simp add: wf_dataframe_def list_all_iff)
    have "\<forall>idx \<in> set [1..<length (rows df)]. idx = 1 \<or> idx \<noteq> 1" by simp
    from run_rows_other_rows [OF run this] have same: "labelled st ! 1 = rows df ! 1"
      by (simp add: initial_state_def)
    have "position i (rows out ! 1) = position i (rows df ! 1)"
      using row [OF l1] same by simp
    moreover have "resolved_before df (rows out) 2 i = position i (rows df ! 1)"
      unfolding resolved_before_def using markers_of_full_6 [OF r6 init] by simp
    ultimately show ?thesis using True by simp
  qed
qed

section \<open>Claims on the marker labelling\<close>

text \<open>
  Claim C1, as amended. In a successful run on a well-formed frame, for every row index
  \<open>t \<ge> 2\<close>, row \<open>t\<close> has exactly two candidates and:
  the identity recorded in the first candidate is bound to the first candidate's point,
  which is at Euclidean distance below \<^verbatim>\<open>max_position_change\<close> from that identity's own
  previous position;
  the other identity is bound to the second candidate's point, which is at distance below
  \<^verbatim>\<open>max_position_change\<close> from the previous position of the identity that the second
  candidate records;
  hence, whenever the two candidates record different identities, each of the two
  identities is at distance below \<^verbatim>\<open>max_position_change\<close> from its own previous position.
  The previous positions are the two points bound at initialisation for \<open>t = 2\<close> and the
  cells of output row \<open>t - 1\<close> afterwards; on a frame of exactly 6 columns they are the
  cells of output row \<open>t - 1\<close> for every \<open>t \<ge> 2\<close>.
\<close>

theorem label_markers_continuity:
  assumes "wf_dataframe df" and "label_markers df m = Inr out"
    and "2 \<le> t" and "t < length (rows out)"
  shows "let pv = resolved_before df (rows out) t;
             ds = distances m (markers_of (rows df ! t))
                    (items \<lparr>prev_marker1 = Some (pv marker1), prev_marker2 = Some (pv marker2)\<rparr>);
             i1 = fst (snd (ds ! 0));
             i2 = fst (snd (ds ! 1))
         in length ds = 2 \<and>
            position i1 (rows out ! t) = fst (ds ! 0) \<and>
            position (other i1) (rows out ! t) = fst (ds ! 1) \<and>
            norm_diff (position i1 (rows out ! t)) (pv i1) < m \<and>
            norm_diff (position (other i1) (rows out ! t)) (pv i2) < m \<and>
            (i2 \<noteq> i1 \<longrightarrow>
               norm_diff (position marker1 (rows out ! t)) (pv marker1) < m \<and>
               norm_diff (position marker2 (rows out ! t)) (pv marker2) < m) \<and>
            (ncols df = 6 \<longrightarrow>
               pv marker1 = position marker1 (rows out ! (t - 1)) \<and>
               pv marker2 = position marker2 (rows out ! (t - 1)))"
proof -
  let ?pv = "resolved_before df (rows out) t"
  let ?ds = "distances m (markers_of (rows df ! t))
      (items \<lparr>prev_marker1 = Some (?pv marker1), prev_marker2 = Some (?pv marker2)\<rparr>)"
  let ?i1 = "fst (snd (?ds ! 0))"
  let ?i2 = "fst (snd (?ds ! 1))"
  let ?r = "rows out ! t"
  have "gate_continuity m ?pv (rows df ! t) ?r"
    using assms by (rule label_markers_rows_from_2(1))
  then have a: "length ?ds = 2"
    and b: "position ?i1 ?r = fst (?ds ! 0)"
    and c: "position (other ?i1) ?r = fst (?ds ! 1)"
    and d: "norm_diff (position ?i1 ?r) (?pv ?i1) < m"
    and e: "norm_diff (position (other ?i1) ?r) (?pv ?i2) < m"
    unfolding gate_continuity_def Let_def by blast+
  have f: "?i2 \<noteq> ?i1 \<longrightarrow>
      norm_diff (position marker1 ?r) (?pv marker1) < m \<and>
      norm_diff (position marker2 ?r) (?pv marker2) < m"
  proof
    assume "?i2 \<noteq> ?i1"
    then have "?i2 = other ?i1" by (rule other_cases)
    with e have e': "norm_diff (position (other ?i1) ?r) (?pv (other ?i1)) < m" by simp
    show "norm_diff (position marker1 ?r) (?pv marker1) < m \<and>
      norm_diff (position marker2 ?r) (?pv marker2) < m"
    proof (cases ?i1)
      case marker1
      with d e' show ?thesis by simp
    next
      case marker2
      with d e' show ?thesis by simp
    qed
  qed
  have g: "ncols df = 6 \<longrightarrow>
      ?pv marker1 = position marker1 (rows out ! (t - 1)) \<and>
      ?pv marker2 = position marker2 (rows out ! (t - 1))"
    using label_markers_rows_from_2(3) [OF assms] by blast
  from a b c d e f g show ?thesis
    unfolding Let_def by (intro conjI)
qed

text \<open>The third row swaps the two points and moves them a little: the first candidate
  records marker 2, the second one marker 1, and both identities stay within the gate of
  their own previous position.\<close>

theorem label_markers_continuity_witness:
  "label_markers
     \<lparr>ncols = 6, rows = [[0, 0, 0, 4, 4, 4], [1, 1, 1, 20, 20, 20], [21, 20, 20, 1, 2, 1]]\<rparr> 5 =
     Inr \<lparr>ncols = 6,
          rows = [[0, 0, 0, 4, 4, 4], [1, 1, 1, 20, 20, 20], [1, 2, 1, 21, 20, 20]]\<rparr> \<and>
   norm_diff (position marker1 [1, 2, 1, 21, 20, 20]) (position marker1 [1, 1, 1, 20, 20, 20]) < 5 \<and>
   norm_diff (position marker2 [1, 2, 1, 21, 20, 20]) (position marker2 [1, 1, 1, 20, 20, 20]) < 5"
proof -
  let ?df = "\<lparr>ncols = 6,
    rows = [[0, 0, 0, 4, 4, 4], [1, 1, 1, 20, 20, 20], [21, 20, 20, 1, 2, 1 :: real]]\<rparr>"
  let ?out = "\<lparr>ncols = 6,
    rows = [[0, 0, 0, 4, 4, 4], [1, 1, 1, 20, 20, 20], [1, 2, 1, 21, 20, 20 :: real]]\<rparr>"
  have wf: "wf_dataframe ?df" by (simp add: wf_dataframe_def)
  have run: "label_markers ?df 5 = Inr ?out" by (simp add: tracker_eval)
  have pv: "resolved_before ?df (rows ?out) 2 marker1 = (1, 1, 1)"
    "resolved_before ?df (rows ?out) 2 marker2 = (20, 20, 20)"
    by (simp_all add: resolved_before_def markers_of_6 is_sentinel_def)
  have ds: "distances 5 (markers_of (rows ?df ! 2))
      (items \<lparr>prev_marker1 = Some (1, 1, 1), prev_marker2 = Some (20, 20, 20)\<rparr>) =
      [((21, 20, 20), marker2, norm_diff (21, 20, 20) (20, 20, 20)),
       ((1, 2, 1), marker1, norm_diff (1, 2, 1) (1, 1, 1))]"
    by (simp add: tracker_eval)
  have "norm_diff (position marker1 (rows ?out ! 2)) (1, 1, 1) < 5 \<and>
        norm_diff (position marker2 (rows ?out ! 2)) (20, 20, 20) < 5"
    using label_markers_continuity [OF wf run, of 2]
    unfolding Let_def pv ds by simp
  with run show ?thesis by (simp add: position_Cons)
qed

text \<open>The claim as stated fails: two points near the previous position of marker 1 give
  two candidates, the second one is bound to marker 2 by elimination, and marker 2 moves
  by 98 with a gate of 5 in a successful run.\<close>

theorem label_markers_continuity_counterexample:
  "label_markers
     \<lparr>ncols = 6, rows = [[1, 0, 0, 100, 0, 0], [1, 0, 0, 100, 0, 0], [1, 0, 0, 2, 0, 0]]\<rparr> 5 =
     Inr \<lparr>ncols = 6,
          rows = [[1, 0, 0, 100, 0, 0], [1, 0, 0, 100, 0, 0], [1, 0, 0, 2, 0, 0]]\<rparr> \<and>
   \<not> norm_diff (position marker2 [1, 0, 0, 2, 0, 0]) (position marker2 [1, 0, 0, 100, 0, 0]) < 5"
  by (simp add: tracker_eval)

text \<open>
  Claim C3. In an update after initialisation that finds exactly two candidates, the
  identity recorded in the first candidate is bound to the first candidate's point, the
  other identity is bound to the second candidate's point whatever identity the second
  candidate records, and \<^verbatim>\<open>prev_pos\<close> then holds the newly written cells of both markers.
\<close>

theorem assignment_policy:
  assumes "2 \<le> idx" and "idx < length (labelled st)" and "6 \<le> length (labelled st ! idx)"
    and "ds = distances m (markers_of (labelled st ! idx)) (items (prev st))"
    and "length ds = 2"
  shows "\<exists>st'. process_row m idx st = Inr st' \<and>
     position (fst (snd (ds ! 0))) (labelled st' ! idx) = fst (ds ! 0) \<and>
     position (other (fst (snd (ds ! 0)))) (labelled st' ! idx) = fst (ds ! 1) \<and>
     prev st' = \<lparr>prev_marker1 = Some (position marker1 (labelled st' ! idx)),
                 prev_marker2 = Some (position marker2 (labelled st' ! idx))\<rparr>"
proof -
  from assms(1) have n1: "idx \<noteq> 1" by simp
  from process_row_succeeds [OF n1] assms(4,5) obtain st' where
    ok: "process_row m idx st = Inr st'" by auto
  from process_row_assignment [OF n1 ok assms(2,3)] process_row_update(3) [OF n1 ok] ok
  show ?thesis unfolding assms(4) by simp
qed

text \<open>Both candidates record marker 1; the second point still goes to marker 2.\<close>

theorem assignment_policy_witness:
  "fst (snd (distances 5 (markers_of [1, 0, 0, 2, 0, 0])
       (items \<lparr>prev_marker1 = Some (1, 0, 0), prev_marker2 = Some (100, 0, 0)\<rparr>) ! 1)) = marker1 \<and>
   (\<exists>st'. process_row 5 2
       \<lparr>prev = \<lparr>prev_marker1 = Some (1, 0, 0), prev_marker2 = Some (100, 0, 0)\<rparr>,
        labelled = [[1, 0, 0, 100, 0, 0], [1, 0, 0, 100, 0, 0], [1, 0, 0, 2, 0, 0]]\<rparr> = Inr st' \<and>
      position marker1 (labelled st' ! 2) = (1, 0, 0) \<and>
      position marker2 (labelled st' ! 2) = (2, 0, 0) \<and>
      prev st' = \<lparr>prev_marker1 = Some (1, 0, 0), prev_marker2 = Some (2, 0, 0)\<rparr>)"
proof -
  let ?st = "\<lparr>prev = \<lparr>prev_marker1 = Some (1, 0, 0), prev_marker2 = Some (100, 0, 0)\<rparr>,
        labelled = [[1, 0, 0, 100, 0, 0], [1, 0, 0, 100, 0, 0], [1, 0, 0, 2, 0, 0 :: real]]\<rparr>"
  let ?ds = "distances 5 (markers_of [1, 0, 0, 2, 0, 0])
       (items \<lparr>prev_marker1 = Some (1, 0, 0), prev_marker2 = Some (100, 0, 0)\<rparr>)"
  have ds: "?ds = [((1, 0, 0), marker1, norm_diff (1, 0, 0) (1, 0, 0)),
                   ((2, 0, 0), marker1, norm_diff (2, 0, 0) (1, 0, 0))]"
    by (simp add: tracker_eval)
  have row: "labelled ?st ! 2 = [1, 0, 0, 2, 0, 0]" by simp
  have "\<exists>st'. process_row 5 2 ?st = Inr st' \<and>
     position (fst (snd (?ds ! 0))) (labelled st' ! 2) = fst (?ds ! 0) \<and>
     position (other (fst (snd (?ds ! 0)))) (labelled st' ! 2) = fst (?ds ! 1) \<and>
     prev st' = \<lparr>prev_marker1 = Some (position marker1 (labelled st' ! 2)),
                 prev_marker2 = Some (position marker2 (labelled st' ! 2))\<rparr>"
    by (rule assignment_policy [of 2 ?st ?ds 5]) (simp_all add: ds)
  then show ?thesis unfolding ds by auto
qed








text \<open>
  Claim C2 says that the initialisation reads frame 0, the first row. The loop starts at
  index 1 and takes \<^verbatim>\<open>idx == 1\<close> for the first valid data: row 0 is never examined. Here
  the first row holds a single valid point and the run succeeds.
\<close>

theorem initialisation_skips_first_row:
  "length (markers_of [1, 1, 1, 0, 0, 0]) = 1 \<and>
   label_markers \<lparr>ncols = 6, rows = [[1, 1, 1, 0, 0, 0], [1, 1, 1, 20, 20, 20]]\<rparr> 5 =
     Inr \<lparr>ncols = 6, rows = [[1, 1, 1, 0, 0, 0], [1, 1, 1, 20, 20, 20]]\<rparr>"
  by (simp add: tracker_eval)

text \<open>The count is checked on the second row instead: two valid points in the first
  row do not help when the second row has one.\<close>

lemma initialisation_checks_second_row:
  "length (markers_of [1, 1, 1, 20, 20, 20]) = 2 \<and>
   label_markers \<lparr>ncols = 6, rows = [[1, 1, 1, 20, 20, 20], [1, 1, 1, 0, 0, 0]]\<rparr> 5 =
     Inl (InitialMarkerCount 1)"
  by (simp add: tracker_eval)

text \<open>
  Claim C5 says that no coordinate of a labelled frame belongs to a zero triple. The rows
  0 and 1 are copied as they are: a first row without detections is written out by a
  successful run.
\<close>

theorem sentinel_in_labelled_output:
  "label_markers
     \<lparr>ncols = 6, rows = [[0, 0, 0, 0, 0, 0], [1, 1, 1, 20, 20, 20], [1, 1, 1, 20, 20, 20]]\<rparr> 5 =
     Inr \<lparr>ncols = 6,
          rows = [[0, 0, 0, 0, 0, 0], [1, 1, 1, 20, 20, 20], [1, 1, 1, 20, 20, 20]]\<rparr> \<and>
   is_sentinel (position marker1 [0, 0, 0, 0, 0, 0])"
  by (simp add: tracker_eval)

text \<open>What does hold of the output of a successful run: 6 columns, as many rows as the
  input, and no zero triple from row 2 on.\<close>

lemma label_markers_shape:
  assumes "label_markers df m = Inr out"
  shows "ncols out = 6" and "length (rows out) = length (rows df)"
    and "wf_dataframe df \<Longrightarrow> wf_dataframe out"
proof -
  from assms obtain st where
    run: "run_rows m [1..<length (rows df)] (initial_state df) = Inr st" and
    out: "out = \<lparr>ncols = 6, rows = map (take 6) (labelled st)\<rparr>" and c6: "6 \<le> ncols df"
    using label_markers_success by blast
  have len: "length (labelled st) = length (rows df)"
    using run_rows_length [OF run] by (simp add: initial_state_def)
  from out show "ncols out = 6" by simp
  from out len show "length (rows out) = length (rows df)" by simp
  show "wf_dataframe out" if wf: "wf_dataframe df"
  proof -
    have "length (labelled st ! j) = ncols df" if "j < length (rows df)" for j
    proof (cases "2 \<le> length (rows df)")
      case True
      from wf c6 have "\<forall>r \<in> set (rows df). 6 \<le> length r" by (rule wf_dataframe_wide)
      from tracker_inv_holds [OF this True _ run]
      have "length (labelled st ! j) = length (rows df ! j)" by (simp add: tracker_inv_def)
      with wf that show ?thesis by (simp add: wf_dataframe_def list_all_length)
    next
      case False
      then have "length (rows df) \<le> Suc 0" by simp
      then have e: "[1..<length (rows df)] = []" by simp
      from run have "st = initial_state df" unfolding e by simp
      with wf that show ?thesis by (simp add: wf_dataframe_def list_all_length initial_state_def)
    qed
    with c6 len out show ?thesis
      by (simp add: wf_dataframe_def list_all_length)
  qed
qed

section \<open>The time axes of the resampler\<close>

lemma length_original_time [simp]: "length (original_time n r) = n"
  by (simp add: original_time_def)

lemma original_time_nth: "i < n \<Longrightarrow> original_time n r ! i = real i / r"
  by (simp add: original_time_def)

lemma original_time_empty [simp]: "original_time n r = [] \<longleftrightarrow> n = 0"
  by (simp add: original_time_def)

lemma last_original_time: "0 < n \<Longrightarrow> last (original_time n r) = real (n - 1) / r"
  by (simp add: last_conv_nth original_time_nth)

lemma hd_original_time: "0 < n \<Longrightarrow> hd (original_time n r) = 0"
  by (simp add: hd_conv_nth original_time_nth)

text \<open>The number of values of \<^verbatim>\<open>np.arange(0, stop, step)\<close> counts the multiples of the
  step strictly below the stop.\<close>

lemma less_arange_count:
  assumes "0 < step"
  shows "j < nat \<lceil>stop / step\<rceil> \<longleftrightarrow> real j * step < stop"
proof -
  have "j < nat \<lceil>stop / step\<rceil> \<longleftrightarrow> int j < \<lceil>stop / step\<rceil>"
    by (simp add: zless_nat_eq_int_zless)
  also have "\<dots> \<longleftrightarrow> real_of_int (int j) < stop / step"
    by (rule less_ceiling_iff)
  also have "\<dots> \<longleftrightarrow> real j * step < stop"
    using assms by (simp add: pos_less_divide_eq)
  finally show ?thesis .
qed

lemma np_arange_from_0:
  assumes "0 < rate"
  shows "np_arange 0 stop (1 / rate) = map (\<lambda>j. real j / rate) [0..<nat \<lceil>stop * rate\<rceil>]"
  by (simp add: np_arange_def)

lemma target_index_set:
  assumes "0 < rate"
  shows "{j. real j / rate < stop} = {..<nat \<lceil>stop * rate\<rceil>}"
proof -
  have "real j / rate < stop \<longleftrightarrow> j < nat \<lceil>stop * rate\<rceil>" for j
  proof -
    have "j < nat \<lceil>stop / (1 / rate)\<rceil> \<longleftrightarrow> real j * (1 / rate) < stop"
      using assms by (intro less_arange_count) simp
    then show ?thesis by simp
  qed
  then show ?thesis by auto
qed

lemma desired_time_axis:
  assumes "0 < rate" and "0 < n"
  shows "desired_time (original_time n r) rate =
     Inr (map (\<lambda>j. real j / rate) [0..<nat \<lceil>real (n - 1) / r * rate\<rceil>])"
  using assms by (simp add: desired_time_def last_original_time np_arange_from_0)

section \<open>The loop over the columns\<close>

lemma interpolate_columns_fails:
  assumes "length x < 4" and "cols \<noteq> []"
  shows "interpolate_columns cubic extrapolate x ts cols = Inl ValueError"
  using assms by (cases cols) (simp_all add: interp1d_def)

lemma interpolate_columns_succeeds:
  assumes "4 \<le> length x"
  shows "\<exists>out. interpolate_columns cubic extrapolate x ts cols = Inr out \<and>
           length out = length cols \<and> (\<forall>c \<in> set out. length c = length ts)"
proof (induction cols)
  case Nil
  show ?case by simp
next
  case (Cons col cols)
  then obtain rest where
    "interpolate_columns cubic extrapolate x ts cols = Inr rest"
    "length rest = length cols" "\<forall>c \<in> set rest. length c = length ts"
    by blast
  with assms show ?case by (simp add: interp1d_def)
qed

lemma interpolate_columns_inside:
  assumes "\<forall>t \<in> set ts. hd x \<le> t \<and> t \<le> last x"
  shows "interpolate_columns cubic extrapolate x ts cols =
         interpolate_columns cubic extrapolate' x ts cols"
proof (induction cols)
  case Nil
  show ?case by simp
next
  case (Cons col cols)
  show ?case
  proof (cases "length x < 4")
    case True
    then show ?thesis by (simp add: interp1d_def)
  next
    case False
    have inside: "map (\<lambda>t. if hd x \<le> t \<and> t \<le> last x then cubic x col t
                              else extrapolate x col t) ts =
          map (\<lambda>t. if hd x \<le> t \<and> t \<le> last x then cubic x col t
                     else extrapolate' x col t) ts"
      using assms by (intro map_cong) simp_all
    from False show ?thesis by (simp add: interp1d_def Cons.IH inside split: sum.splits)
  qed
qed

lemma length_rows_from_columns:
  assumes "cols \<noteq> []" and "\<forall>c \<in> set cols. length c = n"
  shows "length (rows (from_columns cols)) = n"
  using assms by (cases cols) (simp_all add: from_columns_def)

lemma interpolate_data_success:
  assumes "interpolate_data cubic extrapolate orate drate df = Inr out"
  shows "\<exists>ts cols. desired_time (original_time (length (rows df)) orate) drate = Inr ts \<and>
     interpolate_columns cubic extrapolate (original_time (length (rows df)) orate) ts
       (map (column df) [0..<ncols df]) = Inr cols \<and> out = from_columns cols"
  using assms by (auto simp: interpolate_data_def Let_def split: sum.splits)

section \<open>Evaluation of the resampler on concrete frames\<close>

lemma original_time_4: "original_time (Suc (Suc (Suc (Suc 0)))) r = [0, 1 / r, 2 / r, 3 / r]"
  by (simp add: original_time_def)

lemma original_time_3: "original_time (Suc (Suc (Suc 0))) r = [0, 1 / r, 2 / r]"
  by (simp add: original_time_def)

lemma original_time_0: "original_time 0 r = []"
  by (simp add: original_time_def)

lemma np_arange_5: "np_arange 0 (1 / 20) (1 / 100) = [0, 1 / 100, 2 / 100, 3 / 100, 4 / 100]"
  by (simp add: np_arange_def upt_rec)

lemma upt_0_2: "[0..<2] = [0, Suc 0]"
  by (simp add: upt_rec)

lemma upt_0_5: "[0..<5] = [0, 1, 2, 3, 4]"
  by (simp add: upt_rec)

lemmas resampler_eval =
  interpolate_data_def Let_def original_time_4 original_time_3 original_time_0 np_arange_5 desired_time_def
  interp1d_def column_def from_columns_def upt_0_2 upt_0_5

section \<open>Claims on the resampler\<close>

text \<open>
  Claim C6. For a track of \<open>N\<close> samples and positive rates, the source time axis is
  \<open>i / origin_rate\<close> for \<open>i = 0, \<dots>, N - 1\<close>; the target time axis is \<open>j / target_rate\<close>
  for exactly the \<open>j\<close> with \<open>j / target_rate\<close> strictly below the last source time
  \<open>(N - 1) / origin_rate\<close>, in increasing order; and the frame produced has as many rows
  as there are such \<open>j\<close>.
\<close>

theorem resampler_time_axes:
  assumes "0 < ORIGINAL_FRAME_RATE" and "0 < DESIRED_FRAME_RATE" and "0 < ncols df"
    and "interpolate_data cubic extrapolate ORIGINAL_FRAME_RATE DESIRED_FRAME_RATE df = Inr out"
  shows "length (original_time (length (rows df)) ORIGINAL_FRAME_RATE) = length (rows df) \<and>
     (\<forall>i < length (rows df).
        original_time (length (rows df)) ORIGINAL_FRAME_RATE ! i = real i / ORIGINAL_FRAME_RATE) \<and>
     finite {j. real j / DESIRED_FRAME_RATE < real (length (rows df) - 1) / ORIGINAL_FRAME_RATE} \<and>
     desired_time (original_time (length (rows df)) ORIGINAL_FRAME_RATE) DESIRED_FRAME_RATE =
       Inr (map (\<lambda>j. real j / DESIRED_FRAME_RATE)
         (sorted_list_of_set
            {j. real j / DESIRED_FRAME_RATE < real (length (rows df) - 1) / ORIGINAL_FRAME_RATE})) \<and>
     length (rows out) =
       card {j. real j / DESIRED_FRAME_RATE < real (length (rows df) - 1) / ORIGINAL_FRAME_RATE}"
proof -
  let ?n = "length (rows df)"
  let ?J = "{j. real j / DESIRED_FRAME_RATE < real (?n - 1) / ORIGINAL_FRAME_RATE}"
  let ?M = "nat \<lceil>real (?n - 1) / ORIGINAL_FRAME_RATE * DESIRED_FRAME_RATE\<rceil>"
  have J: "?J = {..<?M}" using assms(2) by (rule target_index_set)
  from interpolate_data_success [OF assms(4)] obtain ts cols where
    ts: "desired_time (original_time ?n ORIGINAL_FRAME_RATE) DESIRED_FRAME_RATE = Inr ts" and
    cols: "interpolate_columns cubic extrapolate (original_time ?n ORIGINAL_FRAME_RATE) ts
       (map (column df) [0..<ncols df]) = Inr cols" and
    out: "out = from_columns cols"
    by blast
  from ts have n0: "0 < ?n" by (auto simp: desired_time_def split: if_splits)
  have axis: "desired_time (original_time ?n ORIGINAL_FRAME_RATE) DESIRED_FRAME_RATE =
      Inr (map (\<lambda>j. real j / DESIRED_FRAME_RATE) [0..<?M])"
    using assms(2) n0 by (rule desired_time_axis)
  with ts have tsM: "length ts = ?M" by auto
  from assms(3) have ne: "map (column df) [0..<ncols df] \<noteq> []" by simp
  have n4: "4 \<le> ?n"
  proof (rule ccontr)
    assume "\<not> 4 \<le> ?n"
    then have "length (original_time ?n ORIGINAL_FRAME_RATE) < 4" by simp
    from interpolate_columns_fails [OF this ne] cols show False by simp
  qed
  then have "4 \<le> length (original_time ?n ORIGINAL_FRAME_RATE)" by simp
  from interpolate_columns_succeeds [OF this, of cubic extrapolate ts "map (column df) [0..<ncols df]"]
    cols
  have "length cols = ncols df" and "\<forall>c \<in> set cols. length c = length ts" by auto
  with assms(3) have "length (rows (from_columns cols)) = length ts"
    by (intro length_rows_from_columns) auto
  with out tsM have rows: "length (rows out) = ?M" by simp
  have "sorted_list_of_set {..<?M} = [0..<?M]"
    by (simp add: lessThan_atLeast0)
  with axis rows show ?thesis
    unfolding J by (simp add: original_time_nth)
qed

text \<open>Four samples at 60 Hz resampled to 100 Hz: the last source time is \<open>3 / 60\<close>, and
  five target times \<open>0, 0.01, \<dots>, 0.04\<close> lie strictly below it.\<close>

theorem resampler_time_axes_witness:
  "interpolate_data (\<lambda>x y t. 0) (\<lambda>x y t. 1) 60 100
     \<lparr>ncols = 2, rows = [[1, 2], [1, 2], [1, 2], [1, 2]]\<rparr> =
     Inr \<lparr>ncols = 2, rows = [[0, 0], [0, 0], [0, 0], [0, 0], [0, 0]]\<rparr> \<and>
   card {j. real j / 100 < real (length [[1, 2], [1, 2], [1, 2], [1, 2 :: real]] - 1) / 60} = 5"
proof -
  let ?df = "\<lparr>ncols = 2, rows = [[1, 2], [1, 2], [1, 2], [1, 2 :: real]]\<rparr>"
  let ?out = "\<lparr>ncols = 2, rows = [[0, 0], [0, 0], [0, 0], [0, 0], [0, 0 :: real]]\<rparr>"
  have run: "interpolate_data (\<lambda>x y t. 0) (\<lambda>x y t. 1) 60 100 ?df = Inr ?out"
    by (simp add: resampler_eval)
  have "length (rows ?out) =
      card {j. real j / 100 < real (length (rows ?df) - 1) / 60}"
    using resampler_time_axes [OF _ _ _ run] by simp
  with run show ?thesis by simp
qed

text \<open>
  Claim C7. When the frame given to the resampler has a column and fewer than 4 rows, the
  stage ends with an exception and produces nothing: the refusal of the cubic fit for 1
  to 3 rows, and already the index error on the empty time axis for no row. With 4 or
  more rows every column is fitted and a frame is produced.
\<close>

theorem resampler_sample_requirement:
  assumes "0 < ncols df"
  shows "(length (rows df) < 4 \<longrightarrow>
            interpolate_data cubic extrapolate ORIGINAL_FRAME_RATE DESIRED_FRAME_RATE df =
              Inl (if rows df = [] then IndexError else ValueError)) \<and>
         (4 \<le> length (rows df) \<longrightarrow>
            (\<exists>out. interpolate_data cubic extrapolate ORIGINAL_FRAME_RATE DESIRED_FRAME_RATE df =
               Inr out))"
proof (intro conjI impI)
  let ?x = "original_time (length (rows df)) ORIGINAL_FRAME_RATE"
  from assms have ne: "map (column df) [0..<ncols df] \<noteq> []" by simp
  {
    assume short: "length (rows df) < 4"
    show "interpolate_data cubic extrapolate ORIGINAL_FRAME_RATE DESIRED_FRAME_RATE df =
              Inl (if rows df = [] then IndexError else ValueError)"
    proof (cases "rows df = []")
      case True
      then show ?thesis by (simp add: interpolate_data_def desired_time_def)
    next
      case False
      from short have "length ?x < 4" by simp
      from interpolate_columns_fails [OF this ne] False show ?thesis
        by (simp add: interpolate_data_def desired_time_def Let_def)
    qed
  }
  {
    assume "4 \<le> length (rows df)"
    then have x4: "4 \<le> length ?x" and nonempty: "rows df \<noteq> []" by auto
    from interpolate_columns_succeeds [OF x4] obtain cols where
      "interpolate_columns cubic extrapolate ?x
         (np_arange 0 (last ?x) (1 / DESIRED_FRAME_RATE)) (map (column df) [0..<ncols df]) =
       Inr cols"
      by blast
    with nonempty
    show "\<exists>out. interpolate_data cubic extrapolate ORIGINAL_FRAME_RATE DESIRED_FRAME_RATE df =
               Inr out"
      by (simp add: interpolate_data_def desired_time_def Let_def)
  }
qed

theorem resampler_sample_requirement_witness:
  "interpolate_data (\<lambda>x y t. 0) (\<lambda>x y t. 1) 60 100
     \<lparr>ncols = 2, rows = [[1, 2], [1, 2], [1, 2]]\<rparr> = Inl ValueError \<and>
   interpolate_data (\<lambda>x y t. 0) (\<lambda>x y t. 1) 60 100 \<lparr>ncols = 2, rows = []\<rparr> = Inl IndexError \<and>
   (\<exists>out. interpolate_data (\<lambda>x y t. 0) (\<lambda>x y t. 1) 60 100
     \<lparr>ncols = 2, rows = [[1, 2], [1, 2], [1, 2], [1, 2]]\<rparr> = Inr out)"
  using
    resampler_sample_requirement [of "\<lparr>ncols = 2, rows = [[1, 2], [1, 2], [1, 2]]\<rparr>"
      "\<lambda>x y t. 0" "\<lambda>x y t. 1" 60 100]
    resampler_sample_requirement [of "\<lparr>ncols = 2, rows = []\<rparr>"
      "\<lambda>x y t. 0" "\<lambda>x y t. 1" 60 100]
    resampler_sample_requirement [of "\<lparr>ncols = 2, rows = [[1, 2], [1, 2], [1, 2], [1, 2]]\<rparr>"
      "\<lambda>x y t. 0" "\<lambda>x y t. 1" 60 100]
  by simp

text \<open>
  Claim C10. For positive rates and a track of at least 2 samples, every target time lies
  in the closed interval from the first source time \<open>0\<close> to the last source time
  \<open>(N - 1) / origin_rate\<close>: the fitted curve is only evaluated inside the source range,
  and the result of the stage does not depend on how it extrapolates.
\<close>

theorem resampler_never_extrapolates:
  assumes "0 < ORIGINAL_FRAME_RATE" and "0 < DESIRED_FRAME_RATE" and "2 \<le> length (rows df)"
  shows "\<exists>ts. desired_time (original_time (length (rows df)) ORIGINAL_FRAME_RATE)
                 DESIRED_FRAME_RATE = Inr ts \<and>
     hd (original_time (length (rows df)) ORIGINAL_FRAME_RATE) = 0 \<and>
     last (original_time (length (rows df)) ORIGINAL_FRAME_RATE) =
       real (length (rows df) - 1) / ORIGINAL_FRAME_RATE \<and>
     (\<forall>t \<in> set ts. 0 \<le> t \<and> t \<le> real (length (rows df) - 1) / ORIGINAL_FRAME_RATE) \<and>
     interpolate_data cubic extrapolate ORIGINAL_FRAME_RATE DESIRED_FRAME_RATE df =
     interpolate_data cubic extrapolate' ORIGINAL_FRAME_RATE DESIRED_FRAME_RATE df"
proof -
  let ?n = "length (rows df)"
  let ?x = "original_time ?n ORIGINAL_FRAME_RATE"
  let ?T = "real (?n - 1) / ORIGINAL_FRAME_RATE"
  let ?M = "nat \<lceil>?T * DESIRED_FRAME_RATE\<rceil>"
  let ?ts = "map (\<lambda>j. real j / DESIRED_FRAME_RATE) [0..<?M]"
  from assms(3) have n0: "0 < ?n" by auto
  have axis: "desired_time ?x DESIRED_FRAME_RATE = Inr ?ts"
    using assms(2) n0 by (rule desired_time_axis)
  have h: "hd ?x = 0" using n0 by (rule hd_original_time)
  have l: "last ?x = ?T" using n0 by (rule last_original_time)
  have inside: "\<forall>t \<in> set ?ts. 0 \<le> t \<and> t \<le> ?T"
  proof
    fix t assume "t \<in> set ?ts"
    then obtain j where j: "j < ?M" and t: "t = real j / DESIRED_FRAME_RATE" by auto
    from j have "j \<in> {..<?M}" by simp
    then have "j \<in> {j. real j / DESIRED_FRAME_RATE < ?T}"
      by (simp only: target_index_set [OF assms(2)])
    with t have lt: "t < ?T" by simp
    from t assms(2) have ge: "0 \<le> t" by simp
    from lt have "t \<le> ?T" by (rule less_imp_le)
    with ge show "0 \<le> t \<and> t \<le> ?T" by (rule conjI)
  qed
  then have "\<forall>t \<in> set ?ts. hd ?x \<le> t \<and> t \<le> last ?x" by (simp only: h l)
  then have "interpolate_columns cubic extrapolate ?x ?ts (map (column df) [0..<ncols df]) =
      interpolate_columns cubic extrapolate' ?x ?ts (map (column df) [0..<ncols df])"
    by (rule interpolate_columns_inside)
  then have "interpolate_data cubic extrapolate ORIGINAL_FRAME_RATE DESIRED_FRAME_RATE df =
     interpolate_data cubic extrapolate' ORIGINAL_FRAME_RATE DESIRED_FRAME_RATE df"
    by (simp add: interpolate_data_def Let_def axis)
  with axis h l inside show ?thesis by blast
qed

text \<open>Extrapolating by 1 or by 2 gives the same frame, made of values of the fitted
  curve only.\<close>

theorem resampler_never_extrapolates_witness:
  "interpolate_data (\<lambda>x y t. 0) (\<lambda>x y t. 1) 60 100
     \<lparr>ncols = 2, rows = [[1, 2], [1, 2], [1, 2], [1, 2]]\<rparr> =
   interpolate_data (\<lambda>x y t. 0) (\<lambda>x y t. 2) 60 100
     \<lparr>ncols = 2, rows = [[1, 2], [1, 2], [1, 2], [1, 2]]\<rparr> \<and>
   interpolate_data (\<lambda>x y t. 0) (\<lambda>x y t. 2) 60 100
     \<lparr>ncols = 2, rows = [[1, 2], [1, 2], [1, 2], [1, 2]]\<rparr> =
   Inr \<lparr>ncols = 2, rows = [[0, 0], [0, 0], [0, 0], [0, 0], [0, 0]]\<rparr>"
proof -
  let ?df = "\<lparr>ncols = 2, rows = [[1, 2], [1, 2], [1, 2], [1, 2 :: real]]\<rparr>"
  have "interpolate_data (\<lambda>x y t. 0) (\<lambda>x y t. 1) 60 100 ?df =
        interpolate_data (\<lambda>x y t. 0) (\<lambda>x y t. 2) 60 100 ?df"
    using resampler_never_extrapolates [of 60 100 ?df "\<lambda>x y t. 0" "\<lambda>x y t. 1" "\<lambda>x y t. 2"]
    by auto
  moreover have "interpolate_data (\<lambda>x y t. 0) (\<lambda>x y t. 2) 60 100 ?df =
      Inr \<lparr>ncols = 2, rows = [[0, 0], [0, 0], [0, 0], [0, 0], [0, 0]]\<rparr>"
    by (simp add: resampler_eval)
  ultimately show ?thesis by simp
qed

end
